theory Spec2Isabelle
  imports Complex_Main
begin

section \<open>The annotation editor of \<^verbatim>\<open>src/components/Editor.tsx\<close>\<close>

text \<open>
  The editor is a React component: its state is a handful of \<^verbatim>\<open>useState\<close> cells and
  every event handler computes the next state from the state of the latest render. The
  embedding makes that explicit: the cells become one record, and every handler becomes a
  function from the state before the event to the state after it. Handlers run one at a
  time, each against the state its predecessor left.

  JavaScript numbers are idealised as reals: pointer coordinates and stroke widths are
  finite, and the only arithmetic is a subtraction, a product and one square root.
  A field declared optional (\<^verbatim>\<open>x?: number\<close>) is an \<open>option\<close>, \<open>None\<close> standing for
  \<^verbatim>\<open>undefined\<close>; \<^verbatim>\<open>string | null\<close> is an \<open>option\<close> as well.
\<close>

subsection \<open>Data model\<close>

datatype Tool = Select | Pen | Highlighter | Arrow | Rect | Circle | Text | Crop

text \<open>
  \<^verbatim>\<open>interface Shape\<close>. The elements of \<^verbatim>\<open>points\<close> are optional too, because the arrow
  branch of \<^verbatim>\<open>handleMouseMove\<close> copies \<^verbatim>\<open>points[0]\<close> and \<^verbatim>\<open>points[1]\<close> without checking
  the length, and an out-of-range read in JavaScript yields \<^verbatim>\<open>undefined\<close>.
\<close>

record Shape =
  sh_id :: string
  sh_tool :: Tool
  sh_points :: "real option list option"
  sh_x :: "real option"
  sh_y :: "real option"
  sh_width :: "real option"
  sh_height :: "real option"
  sh_radius :: "real option"
  sh_text :: "string option"
  sh_color :: string
  sh_strokeWidth :: real

text \<open>
  The \<^verbatim>\<open>useState\<close> cells of \<^verbatim>\<open>Editor\<close>. The screenshot is identified by the data URL it
  was decoded from. The stage size is left out: it is computed from floating-point
  ratios when an image has loaded and only scales the rendering.
\<close>

record EditorState =
  screenshot :: "string option"
  tool :: Tool
  color :: string
  strokeWidth :: real
  shapes :: "Shape list"
  isDrawing :: bool
  selectedId :: "string option"
  textInput :: string
  textPosition :: "(real \<times> real) option"

definition initial_state :: EditorState where
  "initial_state =
     \<lparr>screenshot = None, tool = Pen, color = ''#ff0000'', strokeWidth = 3, shapes = [],
      isDrawing = False, selectedId = None, textInput = [], textPosition = None\<rparr>"

subsection \<open>Helpers for JavaScript idioms\<close>

text \<open>Decimal rendering of \<^verbatim>\<open>Date.now()\<close> inside the template \<^verbatim>\<open>`shape-${Date.now()}`\<close>.\<close>

fun decimal :: "nat \<Rightarrow> string" where
  "decimal n =
     (if n < 10 then [''0123456789'' ! n]
      else decimal (n div 10) @ [''0123456789'' ! (n mod 10)])"

declare decimal.simps [simp del]

definition shape_id :: "nat \<Rightarrow> string" where
  "shape_id now = ''shape-'' @ decimal now"

text \<open>\<^verbatim>\<open>v || 0\<close> on an optional number: \<^verbatim>\<open>undefined\<close> and \<open>0\<close> both give \<open>0\<close>.\<close>

definition or_zero :: "real option \<Rightarrow> real" where
  "or_zero v = (case v of None \<Rightarrow> 0 | Some r \<Rightarrow> r)"

text \<open>\<^verbatim>\<open>a[i]\<close>: \<^verbatim>\<open>undefined\<close> past the end of the array.\<close>

definition js_index :: "real option list \<Rightarrow> nat \<Rightarrow> real option" where
  "js_index a i = (if i < length a then a ! i else None)"

text \<open>A shape literal that sets the mandatory fields only.\<close>

definition bare_shape :: "string \<Rightarrow> Tool \<Rightarrow> string \<Rightarrow> real \<Rightarrow> Shape" where
  "bare_shape i t c w =
     \<lparr>sh_id = i, sh_tool = t, sh_points = None, sh_x = None, sh_y = None,
      sh_width = None, sh_height = None, sh_radius = None, sh_text = None,
      sh_color = c, sh_strokeWidth = w\<rparr>"

subsection \<open>Event handlers\<close>

text \<open>
  \<^verbatim>\<open>handleMouseDown\<close>. Of the event it reads whether the target is the stage or the base
  image (\<open>clickedOnEmpty\<close>) and the pointer position; \<open>now\<close> is the value of
  \<^verbatim>\<open>Date.now()\<close>.
\<close>

definition handleMouseDown :: "bool \<Rightarrow> real \<times> real \<Rightarrow> nat \<Rightarrow> EditorState \<Rightarrow> EditorState" where
  "handleMouseDown clickedOnEmpty pos now s =
     (if tool s = Select then
        (if clickedOnEmpty then s\<lparr>selectedId := None\<rparr> else s)
      else if tool s = Text then s\<lparr>textPosition := Some pos\<rparr>
      else if tool s = Pen \<or> tool s = Highlighter then
        s\<lparr>isDrawing := True,
          shapes := shapes s @
            [(bare_shape (shape_id now) (tool s)
                (if tool s = Highlighter then color s @ ''80'' else color s)
                (if tool s = Highlighter then strokeWidth s * 4 else strokeWidth s))
              \<lparr>sh_points := Some [Some (fst pos), Some (snd pos)]\<rparr>]\<rparr>
      else if tool s = Arrow then
        s\<lparr>isDrawing := True,
          shapes := shapes s @
            [(bare_shape (shape_id now) (tool s) (color s) (strokeWidth s))
              \<lparr>sh_points := Some [Some (fst pos), Some (snd pos), Some (fst pos), Some (snd pos)]\<rparr>]\<rparr>
      else if tool s = Rect \<or> tool s = Circle then
        s\<lparr>isDrawing := True,
          shapes := shapes s @
            [(bare_shape (shape_id now) (tool s) (color s) (strokeWidth s))
              \<lparr>sh_x := Some (fst pos), sh_y := Some (snd pos),
               sh_width := Some 0, sh_height := Some 0, sh_radius := Some 0\<rparr>]\<rparr>
      else s\<lparr>isDrawing := True\<rparr>)"

text \<open>
  \<^verbatim>\<open>handleMouseMove\<close>. \<^verbatim>\<open>shapes[shapes.length - 1]\<close> is \<^verbatim>\<open>undefined\<close> on the empty list,
  which the handler tests before it touches the shape; \<^verbatim>\<open>shapes.slice(0, -1)\<close> is
  \<open>butlast\<close>.
\<close>

definition handleMouseMove :: "real \<times> real \<Rightarrow> EditorState \<Rightarrow> EditorState" where
  "handleMouseMove pos s =
     (if \<not> isDrawing s then s
      else if shapes s = [] then s
      else
        let lastShape = last (shapes s); front = butlast (shapes s) in
        if tool s = Pen \<or> tool s = Highlighter then
          s\<lparr>shapes := front @
            [lastShape\<lparr>sh_points :=
               Some ((case sh_points lastShape of None \<Rightarrow> [] | Some ps \<Rightarrow> ps)
                     @ [Some (fst pos), Some (snd pos)])\<rparr>]\<rparr>
        else if tool s = Arrow then
          (let points = (case sh_points lastShape of
                           None \<Rightarrow> [Some 0, Some 0, Some 0, Some 0]
                         | Some ps \<Rightarrow> ps)
           in s\<lparr>shapes := front @
                [lastShape\<lparr>sh_points :=
                   Some [js_index points 0, js_index points 1,
                         Some (fst pos), Some (snd pos)]\<rparr>]\<rparr>)
        else if tool s = Rect then
          s\<lparr>shapes := front @
            [lastShape\<lparr>sh_width := Some (fst pos - or_zero (sh_x lastShape)),
                       sh_height := Some (snd pos - or_zero (sh_y lastShape))\<rparr>]\<rparr>
        else if tool s = Circle then
          (let dx = fst pos - or_zero (sh_x lastShape);
               dy = snd pos - or_zero (sh_y lastShape)
           in s\<lparr>shapes := front @ [lastShape\<lparr>sh_radius := Some (sqrt (dx * dx + dy * dy))\<rparr>]\<rparr>)
        else s)"

definition handleMouseUp :: "EditorState \<Rightarrow> EditorState" where
  "handleMouseUp s = s\<lparr>isDrawing := False\<rparr>"

text \<open>
  \<^verbatim>\<open>addText\<close>. The empty string and \<^verbatim>\<open>null\<close> are falsy, so the guard returns before
  anything is set when either the input is empty or no text entry is pending.
\<close>

definition addText :: "nat \<Rightarrow> EditorState \<Rightarrow> EditorState" where
  "addText now s =
     (if textInput s = [] \<or> textPosition s = None then s
      else case textPosition s of
        None \<Rightarrow> s
      | Some p \<Rightarrow>
          s\<lparr>shapes := shapes s @
              [(bare_shape (shape_id now) Text (color s) (strokeWidth s))
                \<lparr>sh_x := Some (fst p), sh_y := Some (snd p), sh_text := Some (textInput s)\<rparr>],
            textInput := [],
            textPosition := None\<rparr>)"

definition undo :: "EditorState \<Rightarrow> EditorState" where
  "undo s = s\<lparr>shapes := butlast (shapes s), selectedId := None\<rparr>"

definition clearAll :: "EditorState \<Rightarrow> EditorState" where
  "clearAll s = s\<lparr>shapes := [], selectedId := None\<rparr>"

text \<open>\<^verbatim>\<open>deleteSelected\<close>. \<^verbatim>\<open>if (selectedId)\<close> is false for \<^verbatim>\<open>null\<close> and for the empty string.\<close>

definition deleteSelected :: "EditorState \<Rightarrow> EditorState" where
  "deleteSelected s =
     (case selectedId s of
        None \<Rightarrow> s
      | Some i \<Rightarrow>
          if i = [] then s
          else s\<lparr>shapes := filter (\<lambda>sh. sh_id sh \<noteq> i) (shapes s), selectedId := None\<rparr>)"

text \<open>The state setters that the toolbar, the text overlay and the shapes call directly.\<close>

definition setTool :: "Tool \<Rightarrow> EditorState \<Rightarrow> EditorState" where
  "setTool t s = s\<lparr>tool := t\<rparr>"

definition setColor :: "string \<Rightarrow> EditorState \<Rightarrow> EditorState" where
  "setColor c s = s\<lparr>color := c\<rparr>"

definition setStrokeWidth :: "real \<Rightarrow> EditorState \<Rightarrow> EditorState" where
  "setStrokeWidth w s = s\<lparr>strokeWidth := w\<rparr>"

definition setTextInput :: "string \<Rightarrow> EditorState \<Rightarrow> EditorState" where
  "setTextInput v s = s\<lparr>textInput := v\<rparr>"

definition cancelText :: "EditorState \<Rightarrow> EditorState" where
  "cancelText s = s\<lparr>textPosition := None\<rparr>"

text \<open>A shape's \<^verbatim>\<open>onClick\<close>: \<^verbatim>\<open>tool === "select" && setSelectedId(shape.id)\<close>.\<close>

definition shapeClick :: "string \<Rightarrow> EditorState \<Rightarrow> EditorState" where
  "shapeClick i s = (if tool s = Select then s\<lparr>selectedId := Some i\<rparr> else s)"

text \<open>
  The listener of \<^verbatim>\<open>"screenshot-taken"\<close>: \<^verbatim>\<open>loadImage(event.payload); setShapes([])\<close>.
  \<^verbatim>\<open>loadImage\<close> only starts the decoding; the state changes later, in the image's
  \<^verbatim>\<open>onload\<close> callback, which is the handler \<open>imageLoaded\<close>.
\<close>

definition screenshotTaken :: "string \<Rightarrow> EditorState \<Rightarrow> EditorState" where
  "screenshotTaken payload s = s\<lparr>shapes := []\<rparr>"

definition imageLoaded :: "string \<Rightarrow> EditorState \<Rightarrow> EditorState" where
  "imageLoaded dataUrl s = s\<lparr>screenshot := Some dataUrl\<rparr>"

subsection \<open>The editor as a state machine\<close>

datatype Event =
    MouseDown bool "real \<times> real" nat
  | MouseMove "real \<times> real"
  | MouseUp
  | AddText nat
  | Undo
  | ClearAll
  | DeleteSelected
  | SetTool Tool
  | SetColor string
  | SetStrokeWidth real
  | SetTextInput string
  | CancelText
  | ShapeClick string
  | ScreenshotTaken string
  | ImageLoaded string

fun step :: "Event \<Rightarrow> EditorState \<Rightarrow> EditorState" where
  "step (MouseDown ce pos now) s = handleMouseDown ce pos now s"
| "step (MouseMove pos) s = handleMouseMove pos s"
| "step MouseUp s = handleMouseUp s"
| "step (AddText now) s = addText now s"
| "step Undo s = undo s"
| "step ClearAll s = clearAll s"
| "step DeleteSelected s = deleteSelected s"
| "step (SetTool t) s = setTool t s"
| "step (SetColor c) s = setColor c s"
| "step (SetStrokeWidth w) s = setStrokeWidth w s"
| "step (SetTextInput v) s = setTextInput v s"
| "step CancelText s = cancelText s"
| "step (ShapeClick i) s = shapeClick i s"
| "step (ScreenshotTaken p) s = screenshotTaken p s"
| "step (ImageLoaded d) s = imageLoaded d s"

text \<open>Events are handled in the order they arrive.\<close>

fun run :: "Event list \<Rightarrow> EditorState \<Rightarrow> EditorState" where
  "run [] s = s"
| "run (e # es) s = run es (step e s)"

text \<open>The flat array \<^verbatim>\<open>[x0, y0, x1, y1, ...]\<close> of a list of positions.\<close>

fun flatten :: "(real \<times> real) list \<Rightarrow> real option list" where
  "flatten [] = []"
| "flatten (p # ps) = Some (fst p) # Some (snd p) # flatten ps"

text \<open>
  The positions that a shape's \<^verbatim>\<open>points\<close> array holds: the array is read two numbers at
  a time, one \<open>(x, y)\<close> pair for each position. A shape without the array holds none.
\<close>

fun point_pairs :: "'a list \<Rightarrow> ('a \<times> 'a) list" where
  "point_pairs (a # b # rest) = (a, b) # point_pairs rest"
| "point_pairs rest = []"

definition positions :: "Shape \<Rightarrow> (real option \<times> real option) list" where
  "positions sh = (case sh_points sh of None \<Rightarrow> [] | Some a \<Rightarrow> point_pairs a)"

subsection \<open>Which geometry fields a shape carries\<close>

text \<open>
  The optional geometry fields of a shape that are set, in the order of the interface:
  \<^verbatim>\<open>points\<close>, \<^verbatim>\<open>x\<close>, \<^verbatim>\<open>y\<close>, \<^verbatim>\<open>width\<close>, \<^verbatim>\<open>height\<close>, \<^verbatim>\<open>radius\<close>, \<^verbatim>\<open>text\<close>.
\<close>

definition populated :: "Shape \<Rightarrow> bool list" where
  "populated sh =
     [sh_points sh \<noteq> None, sh_x sh \<noteq> None, sh_y sh \<noteq> None, sh_width sh \<noteq> None,
      sh_height sh \<noteq> None, sh_radius sh \<noteq> None, sh_text sh \<noteq> None]"

text \<open>
  The fields that the object literals of \<^verbatim>\<open>handleMouseDown\<close> and \<^verbatim>\<open>addText\<close> set for each
  tool. Rectangles and circles come from one literal, which sets \<^verbatim>\<open>width\<close>, \<^verbatim>\<open>height\<close>
  and \<^verbatim>\<open>radius\<close> for both. No shape is ever made for the selection or the crop tool.
\<close>

fun populated_by :: "Tool \<Rightarrow> bool list option" where
  "populated_by Pen = Some [True, False, False, False, False, False, False]"
| "populated_by Highlighter = Some [True, False, False, False, False, False, False]"
| "populated_by Arrow = Some [True, False, False, False, False, False, False]"
| "populated_by Rect = Some [False, True, True, True, True, True, False]"
| "populated_by Circle = Some [False, True, True, True, True, True, False]"
| "populated_by Text = Some [False, True, True, False, False, False, True]"
| "populated_by Select = None"
| "populated_by Crop = None"

definition geometry_ok :: "Shape \<Rightarrow> bool" where
  "geometry_ok sh = (populated_by (sh_tool sh) = Some (populated sh))"

text \<open>
  A pointer move extends the last shape of the list with the branch of the \<^emph>\<open>active\<close>
  tool. \<open>extends_own_shape\<close> holds of an event unless it is a pointer move that would
  rewrite a last shape made by another tool; \<open>own_shape_run\<close> says so of every event of
  a run.
\<close>

fun extends_own_shape :: "Event \<Rightarrow> EditorState \<Rightarrow> bool" where
  "extends_own_shape (MouseMove pos) s =
     (\<not> isDrawing s \<or> shapes s = [] \<or> sh_tool (last (shapes s)) = tool s)"
| "extends_own_shape e s = True"

fun own_shape_run :: "Event list \<Rightarrow> EditorState \<Rightarrow> bool" where
  "own_shape_run [] s = True"
| "own_shape_run (e # es) s = (extends_own_shape e s \<and> own_shape_run es (step e s))"

subsection \<open>Example states\<close>

text \<open>States reached from the initial state by the events listed, used as concrete inputs.\<close>

definition three_shapes_one_selected :: EditorState where
  "three_shapes_one_selected =
     run [SetTool Rect,
          MouseDown True (10, 10) 1, MouseMove (40, 30), MouseUp,
          MouseDown True (50, 50) 2, MouseMove (90, 80), MouseUp,
          MouseDown True (5, 60) 3, MouseMove (25, 70), MouseUp,
          SetTool Select, MouseDown False (60, 60) 4, ShapeClick (shape_id 2)]
       initial_state"

definition pending_text_entry :: EditorState where
  "pending_text_entry = run [SetTool Text, MouseDown True (10, 20) 1] initial_state"

definition one_shape_selected :: EditorState where
  "one_shape_selected =
     run [SetTool Rect, MouseDown True (10, 10) 1, MouseMove (40, 30), MouseUp,
          SetTool Select, MouseDown False (20, 10) 2, ShapeClick (shape_id 1)]
       initial_state"

definition drawing_without_shape :: EditorState where
  "drawing_without_shape = run [MouseDown True (1, 1) 1, Undo] initial_state"

section \<open>Properties\<close>

lemmas handler_defs =
  handleMouseDown_def handleMouseMove_def handleMouseUp_def addText_def undo_def
  clearAll_def deleteSelected_def setTool_def setColor_def setStrokeWidth_def
  setTextInput_def cancelText_def shapeClick_def screenshotTaken_def imageLoaded_def

lemma run_append: "run (es @ fs) s = run fs (run es s)"
  by (induction es arbitrary: s) simp_all

lemma decimal_digit: "n < 10 \<Longrightarrow> decimal n = [''0123456789'' ! n]"
  by (simp add: decimal.simps)

lemma shape_id_nonempty: "shape_id now \<noteq> []"
  by (simp add: shape_id_def)

subsection \<open>A new screenshot\<close>

text \<open>
  C1: the listener of \<^verbatim>\<open>"screenshot-taken"\<close> should leave the shape list empty and nothing
  selected. It empties the list but never calls \<^verbatim>\<open>setSelectedId\<close>: with three shapes
  present and the second one selected, the list is empty afterwards and the identifier of
  the second shape is still selected. \<open>clearAll\<close>, which empties the list as well, does
  reset the selection.
\<close>

theorem screenshotTaken_keeps_selection:
  "map sh_id (shapes three_shapes_one_selected) = [shape_id 1, shape_id 2, shape_id 3] \<and>
   selectedId three_shapes_one_selected = Some (shape_id 2) \<and>
   shapes (screenshotTaken ''data:image/png;base64,AAAA'' three_shapes_one_selected) = [] \<and>
   selectedId (screenshotTaken ''data:image/png;base64,AAAA'' three_shapes_one_selected)
     = Some (shape_id 2) \<and>
   selectedId (clearAll three_shapes_one_selected) = None"
  by (simp add: three_shapes_one_selected_def initial_state_def handler_defs bare_shape_def)

lemma screenshotTaken_effect:
  "screenshotTaken payload s = s\<lparr>shapes := []\<rparr> \<and>
   selectedId (screenshotTaken payload s) = selectedId s"
  by (simp add: screenshotTaken_def)

subsection \<open>Confirming a text entry\<close>

text \<open>
  C2, as the claim states it, fails: with a text entry pending at \<open>(10, 20)\<close> and an empty
  input, \<open>addText\<close> returns at its guard and the entry is still pending afterwards.
\<close>

theorem addText_empty_keeps_pending:
  "textInput pending_text_entry = [] \<and> textPosition pending_text_entry = Some (10, 20)
   \<and> addText 2 pending_text_entry = pending_text_entry
   \<and> textPosition (addText 2 pending_text_entry) \<noteq> None"
  by (simp add: pending_text_entry_def initial_state_def handler_defs)

text \<open>
  C2, amended: \<open>addText\<close> appends a text shape only when the input is non-empty and an
  entry is pending; it then puts the shape at the pending position with the current color
  and stroke width, and clears both the pending entry and the input. When the input is
  empty (or nothing is pending) the whole state is unchanged, so a pending entry stays
  open.
\<close>

theorem addText_effect:
  "(textInput s = [] \<or> textPosition s = None \<longrightarrow> addText now s = s) \<and>
   (textInput s \<noteq> [] \<and> textPosition s = Some p \<longrightarrow>
      addText now s =
        s\<lparr>shapes := shapes s @
            [(bare_shape (shape_id now) Text (color s) (strokeWidth s))
               \<lparr>sh_x := Some (fst p), sh_y := Some (snd p), sh_text := Some (textInput s)\<rparr>],
          textInput := [], textPosition := None\<rparr>)"
  by (auto simp: addText_def)

theorem addText_effect_witness:
  "addText 2 pending_text_entry = pending_text_entry \<and>
   shapes (addText 2 (setTextInput ''hi'' pending_text_entry)) =
     [(bare_shape (shape_id 2) Text ''#ff0000'' 3)
        \<lparr>sh_x := Some 10, sh_y := Some 20, sh_text := Some ''hi''\<rparr>] \<and>
   textPosition (addText 2 (setTextInput ''hi'' pending_text_entry)) = None"
  using addText_effect [of pending_text_entry 2 "(10, 20)"]
    addText_effect [of "setTextInput ''hi'' pending_text_entry" 2 "(10, 20)"]
  by (simp add: pending_text_entry_def initial_state_def handleMouseDown_def setTool_def
      setTextInput_def)

subsection \<open>When the selection is cleared\<close>

text \<open>
  C3, as the claim states it, fails: with one shape selected under the selection tool,
  switching to the pen leaves the shape selected, and so does a pointer-down with the pen
  active.
\<close>

theorem selection_survives_tool_change:
  "selectedId one_shape_selected = Some (shape_id 1) \<and>
   tool one_shape_selected = Select \<and>
   selectedId (setTool Pen one_shape_selected) = Some (shape_id 1) \<and>
   selectedId (handleMouseDown True (5, 5) 3 (setTool Pen one_shape_selected)) = Some (shape_id 1)"
  by (simp add: one_shape_selected_def initial_state_def handler_defs)

text \<open>
  C3, amended: a change of the active tool leaves the selection as it is, and so does a
  pointer-down with any tool other than the selection tool. A pointer-down clears the
  selection only with the selection tool active and the pointer on the empty stage or the
  base image.
\<close>

theorem selection_cleared_only_by_select_on_empty:
  "selectedId (setTool t s) = selectedId s \<and>
   (tool s \<noteq> Select \<longrightarrow> selectedId (handleMouseDown ce pos now s) = selectedId s) \<and>
   (tool s = Select \<longrightarrow>
      selectedId (handleMouseDown ce pos now s) = (if ce then None else selectedId s))"
  by (simp add: setTool_def handleMouseDown_def)

theorem selection_cleared_only_by_select_on_empty_witness:
  "selectedId (handleMouseDown True (5, 5) 3 (setTool Arrow one_shape_selected)) = Some (shape_id 1) \<and>
   selectedId (handleMouseDown True (5, 5) 3 one_shape_selected) = None \<and>
   selectedId (handleMouseDown False (5, 5) 3 one_shape_selected) = Some (shape_id 1)"
  using selection_cleared_only_by_select_on_empty [of Arrow one_shape_selected True "(5, 5)" 3]
    selection_cleared_only_by_select_on_empty [of Arrow "setTool Arrow one_shape_selected" True "(5, 5)" 3]
    selection_cleared_only_by_select_on_empty [of Arrow one_shape_selected False "(5, 5)" 3]
  by (simp add: one_shape_selected_def initial_state_def handleMouseDown_def handleMouseMove_def
      handleMouseUp_def setTool_def shapeClick_def)

subsection \<open>Freehand strokes\<close>

lemma length_flatten: "length (flatten ps) = 2 * length ps"
  by (induction ps) simp_all

text \<open>While a stroke is being drawn, every pointer move appends its position to the last shape.\<close>

lemma moves_extend_stroke:
  assumes "isDrawing s" and "tool s = Pen \<or> tool s = Highlighter"
    and "shapes s = front @ [sh]" and "sh_points sh = Some pts"
  shows "run (map MouseMove ps) s =
           s\<lparr>shapes := front @ [sh\<lparr>sh_points := Some (pts @ flatten ps)\<rparr>]\<rparr>"
  using assms
proof (induction ps arbitrary: s sh pts)
  case Nil
  have "sh\<lparr>sh_points := Some pts\<rparr> = sh"
    by (simp add: Nil.prems(4) [symmetric])
  with Nil.prems(3) show ?case by (simp add: Nil.prems(3) [symmetric])
next
  case (Cons p ps)
  let ?sh = "sh\<lparr>sh_points := Some (pts @ [Some (fst p), Some (snd p)])\<rparr>"
  let ?s = "s\<lparr>shapes := front @ [?sh]\<rparr>"
  have stp: "handleMouseMove p s = ?s"
    using Cons.prems by (auto simp: handleMouseMove_def)
  have "run (map MouseMove ps) ?s =
          ?s\<lparr>shapes := front @ [?sh\<lparr>sh_points := Some ((pts @ [Some (fst p), Some (snd p)]) @ flatten ps)\<rparr>]\<rparr>"
    using Cons.prems by (intro Cons.IH) simp_all
  with stp show ?case by simp
qed

lemma point_pairs_flatten:
  "point_pairs (flatten ps) = map (\<lambda>p. (Some (fst p), Some (snd p))) ps"
  by (induction ps) simp_all

text \<open>
  C4, as the claim states it, fails: with the pen active, a pointer-down at \<open>(10, 10)\<close>
  followed at once by a pointer-up leaves a stroke whose \<^verbatim>\<open>points\<close> array is \<open>[10, 10]\<close>.
  The point sequence holds that one position, not two.
\<close>

theorem click_stroke_has_one_position:
  "tool initial_state = Pen \<and>
   map sh_points (shapes (run [MouseDown True (10, 10) 1, MouseUp] initial_state))
     = [Some [Some 10, Some 10]] \<and>
   map positions (shapes (run [MouseDown True (10, 10) 1, MouseUp] initial_state))
     = [[(Some 10, Some 10)]] \<and>
   \<not> 2 \<le> length (positions (last (shapes (run [MouseDown True (10, 10) 1, MouseUp] initial_state))))"
  by (simp add: initial_state_def handler_defs bare_shape_def positions_def)

text \<open>
  C4, amended: with the pen or the highlighter active, a pointer-down at \<open>p0\<close>, pointer
  moves to the positions \<open>ps\<close> (possibly none) and a pointer-up add exactly one shape, a
  stroke of the active tool. Its point sequence lists \<open>p0\<close> and then \<open>ps\<close>, in the order
  supplied; its length is \<open>1 + length ps\<close>, so it is at least 1, and at least 2 exactly
  when there was at least one pointer move.
\<close>

theorem stroke_points_in_order:
  assumes "tool s = Pen \<or> tool s = Highlighter"
  shows "run (MouseDown ce p0 now # map MouseMove ps @ [MouseUp]) s =
           s\<lparr>isDrawing := False,
             shapes := shapes s @
               [\<lparr>sh_id = shape_id now, sh_tool = tool s,
                 sh_points = Some (flatten (p0 # ps)),
                 sh_x = None, sh_y = None, sh_width = None, sh_height = None,
                 sh_radius = None, sh_text = None,
                 sh_color = (if tool s = Highlighter then color s @ ''80'' else color s),
                 sh_strokeWidth =
                   (if tool s = Highlighter then strokeWidth s * 4 else strokeWidth s)\<rparr>]\<rparr>
         \<and> positions (last (shapes (run (MouseDown ce p0 now # map MouseMove ps @ [MouseUp]) s)))
             = map (\<lambda>p. (Some (fst p), Some (snd p))) (p0 # ps)
         \<and> length (positions (last (shapes (run (MouseDown ce p0 now # map MouseMove ps @ [MouseUp]) s))))
             = 1 + length ps
         \<and> (2 \<le> length (positions (last (shapes (run (MouseDown ce p0 now # map MouseMove ps @ [MouseUp]) s)))))
             = (ps \<noteq> [])"
proof -
  let ?begun = "(bare_shape (shape_id now) (tool s)
                (if tool s = Highlighter then color s @ ''80'' else color s)
                (if tool s = Highlighter then strokeWidth s * 4 else strokeWidth s))
              \<lparr>sh_points := Some [Some (fst p0), Some (snd p0)]\<rparr>"
  let ?st = "s\<lparr>isDrawing := True, shapes := shapes s @ [?begun]\<rparr>"
  let ?stroke = "\<lparr>sh_id = shape_id now, sh_tool = tool s,
                 sh_points = Some (flatten (p0 # ps)),
                 sh_x = None, sh_y = None, sh_width = None, sh_height = None,
                 sh_radius = None, sh_text = None,
                 sh_color = (if tool s = Highlighter then color s @ ''80'' else color s),
                 sh_strokeWidth =
                   (if tool s = Highlighter then strokeWidth s * 4 else strokeWidth s)\<rparr>"
  have down: "handleMouseDown ce p0 now s = ?st"
    using assms by (auto simp: handleMouseDown_def)
  have moves: "run (map MouseMove ps) ?st =
      ?st\<lparr>shapes := shapes s @ [?begun\<lparr>sh_points := Some ([Some (fst p0), Some (snd p0)] @ flatten ps)\<rparr>]\<rparr>"
  proof (rule moves_extend_stroke)
    show "isDrawing ?st" by simp
    show "tool ?st = Pen \<or> tool ?st = Highlighter" using assms by simp
    show "shapes ?st = shapes s @ [?begun]" by simp
    show "sh_points ?begun = Some [Some (fst p0), Some (snd p0)]" by simp
  qed
  have res: "run (MouseDown ce p0 now # map MouseMove ps @ [MouseUp]) s =
      s\<lparr>isDrawing := False, shapes := shapes s @ [?stroke]\<rparr>"
  proof -
    have "run (MouseDown ce p0 now # map MouseMove ps @ [MouseUp]) s =
            handleMouseUp (run (map MouseMove ps) (handleMouseDown ce p0 now s))"
      by (simp add: run_append)
    also have "\<dots> = s\<lparr>isDrawing := False, shapes := shapes s @ [?stroke]\<rparr>"
      by (simp only: down moves) (simp add: handleMouseUp_def bare_shape_def)
    finally show ?thesis .
  qed
  have pos: "positions ?stroke = map (\<lambda>p. (Some (fst p), Some (snd p))) (p0 # ps)"
    unfolding positions_def by (simp only: Shape.simps option.case point_pairs_flatten)
  have len: "length (positions ?stroke) = 1 + length ps"
    by (simp only: pos) simp
  have two: "(2 \<le> length (positions ?stroke)) = (ps \<noteq> [])"
    by (simp only: len) (cases ps; simp)
  have lst: "last (shapes (run (MouseDown ce p0 now # map MouseMove ps @ [MouseUp]) s)) = ?stroke"
    by (simp only: res) simp
  show ?thesis
    unfolding lst by (intro conjI res pos len two)
qed

theorem stroke_points_in_order_witness:
  "(tool initial_state = Pen \<or> tool initial_state = Highlighter) \<and>
   map positions
     (shapes (run [MouseDown True (10, 10) 1, MouseMove (20, 20), MouseMove (30, 10), MouseUp]
                initial_state))
     = [[(Some 10, Some 10), (Some 20, Some 20), (Some 30, Some 10)]] \<and>
   map sh_tool
     (shapes (run [MouseDown True (10, 10) 1, MouseMove (20, 20), MouseMove (30, 10), MouseUp]
                initial_state)) = [Pen]"
  using stroke_points_in_order [of initial_state True "(10, 10)" 1 "[(20, 20), (30, 10)]"]
  by (simp add: initial_state_def positions_def)

subsection \<open>Geometry fields\<close>

text \<open>
  C5, as the claim states it, fails: the rectangle that a pointer-down makes carries the
  radius \<open>0\<close>, and the circle carries the width \<open>0\<close>.
\<close>

theorem rect_carries_radius:
  "map sh_tool (shapes (run [SetTool Rect, MouseDown True (50, 50) 1, MouseUp] initial_state)) = [Rect]
   \<and> map sh_radius (shapes (run [SetTool Rect, MouseDown True (50, 50) 1, MouseUp] initial_state))
       = [Some 0]
   \<and> map sh_tool (shapes (run [SetTool Circle, MouseDown True (50, 50) 1, MouseUp] initial_state)) = [Circle]
   \<and> map sh_width (shapes (run [SetTool Circle, MouseDown True (50, 50) 1, MouseUp] initial_state))
       = [Some 0]"
  by (simp add: initial_state_def handler_defs bare_shape_def)

text \<open>
  Why pointer moves are restricted below: when the tool is switched while a drawing is in
  progress, the next pointer move runs the new tool's branch on the old shape, and a
  rectangle ends up with a \<^verbatim>\<open>points\<close> array.
\<close>

lemma rect_gains_points_after_tool_switch:
  "map sh_tool (shapes (run [SetTool Rect, MouseDown True (50, 50) 1, SetTool Pen, MouseMove (60, 60)]
                         initial_state)) = [Rect]
   \<and> map sh_points (shapes (run [SetTool Rect, MouseDown True (50, 50) 1, SetTool Pen, MouseMove (60, 60)]
                         initial_state)) = [Some [Some 60, Some 60]]"
  by (simp add: initial_state_def handler_defs bare_shape_def)

lemma list_all_butlast_last:
  "xs \<noteq> [] \<Longrightarrow> list_all P xs \<Longrightarrow> list_all P (butlast xs) \<and> P (last xs)"
  by (induction xs) auto

lemma list_all_butlast: "list_all P xs \<Longrightarrow> list_all P (butlast xs)"
  by (induction xs) auto

lemma geometry_ok_handleMouseDown:
  "list_all geometry_ok (shapes s) \<Longrightarrow> list_all geometry_ok (shapes (handleMouseDown ce pos now s))"
  by (cases "tool s") (simp_all add: handleMouseDown_def geometry_ok_def populated_def bare_shape_def)

lemma geometry_ok_handleMouseMove:
  assumes "list_all geometry_ok (shapes s)"
    and "\<not> isDrawing s \<or> shapes s = [] \<or> sh_tool (last (shapes s)) = tool s"
  shows "list_all geometry_ok (shapes (handleMouseMove pos s))"
proof (cases "isDrawing s \<and> shapes s \<noteq> []")
  case False
  with assms(1) show ?thesis by (auto simp: handleMouseMove_def)
next
  case True
  with assms have front: "list_all geometry_ok (butlast (shapes s))"
    and lst: "geometry_ok (last (shapes s))" and tl: "sh_tool (last (shapes s)) = tool s"
    using list_all_butlast_last [of "shapes s" geometry_ok] by auto
  from True front lst tl assms(1) show ?thesis
    by (cases "tool s")
      (simp_all add: handleMouseMove_def Let_def geometry_ok_def populated_def)
qed

lemma geometry_ok_addText:
  "list_all geometry_ok (shapes s) \<Longrightarrow> list_all geometry_ok (shapes (addText now s))"
  by (auto simp: addText_def geometry_ok_def populated_def bare_shape_def)

lemma geometry_ok_deleteSelected:
  "list_all geometry_ok (shapes s) \<Longrightarrow> list_all geometry_ok (shapes (deleteSelected s))"
  by (auto simp: deleteSelected_def list_all_iff split: option.splits)

lemma geometry_ok_step:
  assumes "list_all geometry_ok (shapes s)" and "extends_own_shape e s"
  shows "list_all geometry_ok (shapes (step e s))"
proof (cases e)
  case (MouseDown ce pos now)
  with assms(1) show ?thesis by (simp add: geometry_ok_handleMouseDown)
next
  case (MouseMove pos)
  with assms show ?thesis by (simp add: geometry_ok_handleMouseMove)
next
  case (AddText now)
  with assms(1) show ?thesis by (simp add: geometry_ok_addText)
next
  case Undo
  with assms(1) show ?thesis by (simp add: undo_def list_all_butlast)
next
  case DeleteSelected
  with assms(1) show ?thesis by (simp add: geometry_ok_deleteSelected)
qed (use assms(1) in \<open>simp_all add: handler_defs\<close>)

text \<open>
  C5, amended: along every run of events in which each pointer move extends a shape made
  by the active tool, every shape of the list has exactly the geometry fields that the
  handlers set for its tool: \<^verbatim>\<open>points\<close> for pen, highlighter and arrow; \<^verbatim>\<open>x\<close>, \<^verbatim>\<open>y\<close>,
  \<^verbatim>\<open>width\<close>, \<^verbatim>\<open>height\<close> and \<^verbatim>\<open>radius\<close> for a rectangle and for a circle alike; \<^verbatim>\<open>x\<close>, \<^verbatim>\<open>y\<close>
  and \<^verbatim>\<open>text\<close> for a text. In particular a rectangle carries no \<^verbatim>\<open>points\<close> array, and it
  does carry a radius.
\<close>

theorem geometry_fields_by_tool:
  assumes "list_all geometry_ok (shapes s)" and "own_shape_run es s"
  shows "list_all geometry_ok (shapes (run es s)) \<and>
         list_all (\<lambda>sh. sh_tool sh \<noteq> Rect \<or> sh_points sh = None \<and> sh_radius sh \<noteq> None)
           (shapes (run es s))"
proof -
  have inv: "list_all geometry_ok (shapes (run es s))"
    using assms
  proof (induction es arbitrary: s)
    case Nil
    then show ?case by simp
  next
    case (Cons e es)
    then show ?case by (simp add: geometry_ok_step)
  qed
  have "\<And>sh. geometry_ok sh \<Longrightarrow> sh_tool sh \<noteq> Rect \<or> sh_points sh = None \<and> sh_radius sh \<noteq> None"
    by (auto simp: geometry_ok_def populated_def)
  with inv show ?thesis
    by (auto simp: list_all_iff)
qed

theorem geometry_fields_by_tool_witness:
  "list_all geometry_ok (shapes initial_state) \<and>
   own_shape_run [SetTool Rect, MouseDown True (50, 50) 1, MouseMove (30, 20), MouseUp,
                  SetTool Text, MouseDown True (5, 5) 2, SetTextInput ''hi'', AddText 3]
     initial_state \<and>
   list_all geometry_ok
     (shapes (run [SetTool Rect, MouseDown True (50, 50) 1, MouseMove (30, 20), MouseUp,
                   SetTool Text, MouseDown True (5, 5) 2, SetTextInput ''hi'', AddText 3]
                initial_state)) \<and>
   map sh_tool
     (shapes (run [SetTool Rect, MouseDown True (50, 50) 1, MouseMove (30, 20), MouseUp,
                   SetTool Text, MouseDown True (5, 5) 2, SetTextInput ''hi'', AddText 3]
                initial_state)) = [Rect, Text]"
proof -
  let ?es = "[SetTool Rect, MouseDown True (50, 50) 1, MouseMove (30, 20), MouseUp,
              SetTool Text, MouseDown True (5, 5) 2, SetTextInput ''hi'', AddText 3]"
  have a: "list_all geometry_ok (shapes initial_state)"
    by (simp add: initial_state_def)
  have b: "own_shape_run ?es initial_state"
    by (simp add: initial_state_def handler_defs bare_shape_def)
  have c: "map sh_tool (shapes (run ?es initial_state)) = [Rect, Text]"
    by (simp add: initial_state_def handler_defs bare_shape_def)
  from a b c geometry_fields_by_tool [OF a b] show ?thesis by simp
qed

subsection \<open>Undo\<close>

lemma shapes_undo_funpow:
  "shapes ((undo ^^ n) s) = take (length (shapes s) - n) (shapes s)"
proof (induction n)
  case 0
  show ?case by simp
next
  case (Suc n)
  have "shapes ((undo ^^ Suc n) s) = butlast (shapes ((undo ^^ n) s))"
    by (simp add: undo_def)
  also have "\<dots> = butlast (take (length (shapes s) - n) (shapes s))"
    by (simp only: Suc.IH)
  also have "\<dots> = take (length (shapes s) - Suc n) (shapes s)"
    by (simp add: butlast_take)
  finally show ?case .
qed

text \<open>
  C6: \<open>n\<close> applications of \<open>undo\<close> to a list of \<open>m\<close> shapes leave its first \<open>m - n\<close>
  shapes, so exactly \<open>min n m\<close> shapes are gone, all from the tail; one application drops
  the last shape, leaves an empty list empty, and every application ends with nothing
  selected.
\<close>

theorem undo_repeated:
  "shapes ((undo ^^ n) s) = take (length (shapes s) - n) (shapes s) \<and>
   length (shapes s) - length (shapes ((undo ^^ n) s)) = min n (length (shapes s)) \<and>
   shapes (undo s) = butlast (shapes s) \<and>
   shapes (undo (s\<lparr>shapes := []\<rparr>)) = [] \<and>
   selectedId ((undo ^^ Suc n) s) = None"
proof -
  have "length (shapes s) - length (shapes ((undo ^^ n) s)) = min n (length (shapes s))"
    by (simp add: shapes_undo_funpow)
  moreover have "selectedId ((undo ^^ Suc n) s) = None"
    by (simp add: undo_def)
  ultimately show ?thesis
    by (simp add: shapes_undo_funpow) (simp add: undo_def)
qed

subsection \<open>Dragging a rectangle\<close>

text \<open>
  While a rectangle is being drawn, pointer moves change the width and the height of the
  last shape and nothing else.
\<close>

lemma moves_resize_rect:
  assumes "isDrawing s" and "tool s = Rect" and "shapes s = front @ [sh]"
  shows "\<exists>w h. run (map MouseMove qs) s = s\<lparr>shapes := front @ [sh\<lparr>sh_width := w, sh_height := h\<rparr>]\<rparr>"
  using assms
proof (induction qs arbitrary: s sh)
  case Nil
  have "s = s\<lparr>shapes := front @ [sh\<lparr>sh_width := sh_width sh, sh_height := sh_height sh\<rparr>]\<rparr>"
    by (simp add: Nil.prems(3) [symmetric])
  then show ?case by (simp only: list.map run.simps) blast
next
  case (Cons q qs)
  let ?sh = "sh\<lparr>sh_width := Some (fst q - or_zero (sh_x sh)),
                 sh_height := Some (snd q - or_zero (sh_y sh))\<rparr>"
  let ?s = "s\<lparr>shapes := front @ [?sh]\<rparr>"
  have stp: "handleMouseMove q s = ?s"
    using Cons.prems by (simp add: handleMouseMove_def)
  have "\<exists>w h. run (map MouseMove qs) ?s = ?s\<lparr>shapes := front @ [?sh\<lparr>sh_width := w, sh_height := h\<rparr>]\<rparr>"
    using Cons.prems by (intro Cons.IH) simp_all
  with stp show ?case by simp
qed

text \<open>
  C7: with the rectangle tool active and a drawing in progress, a pointer move to \<open>q\<close>
  sets the width and the height of the last shape to the coordinates of \<open>q\<close> minus those
  of the shape's origin, and changes nothing else. So, from any state, choosing the
  rectangle tool, pressing at \<open>p\<close>, moving any number of times with \<open>q\<close> the last
  position, and releasing adds exactly one shape: a rectangle with origin \<open>p\<close>, width
  \<open>fst q - fst p\<close> and height \<open>snd q - snd p\<close>, negative when the drag goes left or up.
  Pressing at \<open>(50, 50)\<close> and moving to \<open>(30, 20)\<close> gives width \<open>-20\<close> and height \<open>-30\<close>.
\<close>

theorem rect_drag:
  "handleMouseMove q (s\<lparr>tool := Rect, isDrawing := True, shapes := front @ [sh]\<rparr>) =
     s\<lparr>tool := Rect, isDrawing := True,
       shapes := front @
         [sh\<lparr>sh_width := Some (fst q - or_zero (sh_x sh)),
             sh_height := Some (snd q - or_zero (sh_y sh))\<rparr>]\<rparr>
   \<and>
   run (SetTool Rect # MouseDown ce p now # map MouseMove (qs @ [q]) @ [MouseUp]) s =
     s\<lparr>tool := Rect, isDrawing := False,
       shapes := shapes s @
         [\<lparr>sh_id = shape_id now, sh_tool = Rect, sh_points = None,
           sh_x = Some (fst p), sh_y = Some (snd p),
           sh_width = Some (fst q - fst p), sh_height = Some (snd q - snd p),
           sh_radius = Some 0, sh_text = None,
           sh_color = color s, sh_strokeWidth = strokeWidth s\<rparr>]\<rparr>
   \<and>
   run [SetTool Rect, MouseDown ce (50, 50) now, MouseMove (30, 20), MouseUp] s =
     s\<lparr>tool := Rect, isDrawing := False,
       shapes := shapes s @
         [\<lparr>sh_id = shape_id now, sh_tool = Rect, sh_points = None,
           sh_x = Some 50, sh_y = Some 50,
           sh_width = Some (- 20), sh_height = Some (- 30),
           sh_radius = Some 0, sh_text = None,
           sh_color = color s, sh_strokeWidth = strokeWidth s\<rparr>]\<rparr>"
proof (intro conjI)
  show "handleMouseMove q (s\<lparr>tool := Rect, isDrawing := True, shapes := front @ [sh]\<rparr>) =
     s\<lparr>tool := Rect, isDrawing := True,
       shapes := front @
         [sh\<lparr>sh_width := Some (fst q - or_zero (sh_x sh)),
             sh_height := Some (snd q - or_zero (sh_y sh))\<rparr>]\<rparr>"
    by (simp add: handleMouseMove_def)
next
  let ?sh0 = "\<lparr>sh_id = shape_id now, sh_tool = Rect, sh_points = None,
           sh_x = Some (fst p), sh_y = Some (snd p),
           sh_width = Some 0, sh_height = Some 0,
           sh_radius = Some 0, sh_text = None,
           sh_color = color s, sh_strokeWidth = strokeWidth s\<rparr>"
  let ?s0 = "s\<lparr>tool := Rect, isDrawing := True, shapes := shapes s @ [?sh0]\<rparr>"
  have down: "run [SetTool Rect, MouseDown ce p now] s = ?s0"
    by (simp add: setTool_def handleMouseDown_def bare_shape_def)
  obtain w h where mv:
    "run (map MouseMove qs) ?s0 = ?s0\<lparr>shapes := shapes s @ [?sh0\<lparr>sh_width := w, sh_height := h\<rparr>]\<rparr>"
    using moves_resize_rect [of ?s0 "shapes s" ?sh0 qs] by auto
  have "run (SetTool Rect # MouseDown ce p now # map MouseMove (qs @ [q]) @ [MouseUp]) s =
        handleMouseUp (handleMouseMove q (run (map MouseMove qs) (run [SetTool Rect, MouseDown ce p now] s)))"
    by (simp add: run_append)
  also have "\<dots> = s\<lparr>tool := Rect, isDrawing := False,
       shapes := shapes s @
         [\<lparr>sh_id = shape_id now, sh_tool = Rect, sh_points = None,
           sh_x = Some (fst p), sh_y = Some (snd p),
           sh_width = Some (fst q - fst p), sh_height = Some (snd q - snd p),
           sh_radius = Some 0, sh_text = None,
           sh_color = color s, sh_strokeWidth = strokeWidth s\<rparr>]\<rparr>"
    by (simp only: down mv) (simp add: handleMouseMove_def handleMouseUp_def or_zero_def)
  finally show "run (SetTool Rect # MouseDown ce p now # map MouseMove (qs @ [q]) @ [MouseUp]) s =
     s\<lparr>tool := Rect, isDrawing := False,
       shapes := shapes s @
         [\<lparr>sh_id = shape_id now, sh_tool = Rect, sh_points = None,
           sh_x = Some (fst p), sh_y = Some (snd p),
           sh_width = Some (fst q - fst p), sh_height = Some (snd q - snd p),
           sh_radius = Some 0, sh_text = None,
           sh_color = color s, sh_strokeWidth = strokeWidth s\<rparr>]\<rparr>" .
next
  show "run [SetTool Rect, MouseDown ce (50, 50) now, MouseMove (30, 20), MouseUp] s =
     s\<lparr>tool := Rect, isDrawing := False,
       shapes := shapes s @
         [\<lparr>sh_id = shape_id now, sh_tool = Rect, sh_points = None,
           sh_x = Some 50, sh_y = Some 50,
           sh_width = Some (- 20), sh_height = Some (- 30),
           sh_radius = Some 0, sh_text = None,
           sh_color = color s, sh_strokeWidth = strokeWidth s\<rparr>]\<rparr>"
    by (simp add: handler_defs bare_shape_def or_zero_def)
qed

subsection \<open>Clear, then undo\<close>

text \<open>
  C8: after \<open>clearAll\<close> the shape list is empty and nothing is selected, and an \<open>undo\<close>
  that follows changes nothing.
\<close>

theorem undo_after_clearAll:
  "undo (clearAll s) = clearAll s \<and> shapes (clearAll s) = [] \<and> selectedId (clearAll s) = None"
  by (simp add: undo_def clearAll_def)

subsection \<open>Deleting the selected shape\<close>

lemma filter_removes_the_one:
  assumes "distinct (map f xs)" and "x \<in> set xs"
  shows "\<exists>ys zs. xs = ys @ x # zs \<and> filter (\<lambda>y. f y \<noteq> f x) xs = ys @ zs"
proof -
  from assms(2) obtain ys zs where xs: "xs = ys @ x # zs"
    by (auto dest: split_list)
  with assms(1) have "f x \<notin> f ` set ys" and "f x \<notin> f ` set zs"
    by auto
  then have "\<forall>y \<in> set ys. f y \<noteq> f x" and "\<forall>y \<in> set zs. f y \<noteq> f x"
    by (metis imageI)+
  then have "filter (\<lambda>y. f y \<noteq> f x) ys = ys" and "filter (\<lambda>y. f y \<noteq> f x) zs = zs"
    by simp_all
  with xs show ?thesis by auto
qed

text \<open>
  A selection is the identifier of a shape, and identifiers are never empty
  (\<open>shape_id_nonempty\<close>); no event makes the selection the empty string unless a shape
  with an empty identifier is clicked.
\<close>

lemma selection_never_empty:
  assumes "selectedId s \<noteq> Some []" and "e \<noteq> ShapeClick []"
  shows "selectedId (step e s) \<noteq> Some []"
  using assms
  by (cases e) (auto simp: handler_defs Let_def split: option.splits if_splits)

text \<open>
  C9: with nothing selected \<open>deleteSelected\<close> returns the state it was given. With the
  identifier \<open>i\<close> of a shape selected, it removes the shapes whose identifier is \<open>i\<close>,
  clears the selection and changes nothing else; where the identifiers of the list are
  distinct, the list afterwards is the list before without the one selected shape.
\<close>

theorem deleteSelected_effect:
  "(selectedId s = None \<longrightarrow> deleteSelected s = s) \<and>
   (selectedId s = Some i \<and> i \<noteq> [] \<longrightarrow>
      deleteSelected s = s\<lparr>shapes := filter (\<lambda>sh. sh_id sh \<noteq> i) (shapes s), selectedId := None\<rparr>) \<and>
   (selectedId s = Some (sh_id sh) \<and> sh_id sh \<noteq> [] \<and> sh \<in> set (shapes s) \<and>
    distinct (map sh_id (shapes s)) \<longrightarrow>
      (\<exists>ys zs. shapes s = ys @ sh # zs \<and> shapes (deleteSelected s) = ys @ zs))"
proof (intro conjI impI)
  assume "selectedId s = None"
  then show "deleteSelected s = s" by (simp add: deleteSelected_def)
next
  assume "selectedId s = Some i \<and> i \<noteq> []"
  then show "deleteSelected s =
      s\<lparr>shapes := filter (\<lambda>sh. sh_id sh \<noteq> i) (shapes s), selectedId := None\<rparr>"
    by (simp add: deleteSelected_def)
next
  assume a: "selectedId s = Some (sh_id sh) \<and> sh_id sh \<noteq> [] \<and> sh \<in> set (shapes s) \<and>
    distinct (map sh_id (shapes s))"
  then have "shapes (deleteSelected s) = filter (\<lambda>y. sh_id y \<noteq> sh_id sh) (shapes s)"
    by (simp add: deleteSelected_def)
  with a filter_removes_the_one [of sh_id "shapes s" sh]
  show "\<exists>ys zs. shapes s = ys @ sh # zs \<and> shapes (deleteSelected s) = ys @ zs"
    by simp
qed

theorem deleteSelected_effect_witness:
  "deleteSelected initial_state = initial_state \<and>
   map sh_id (shapes (deleteSelected three_shapes_one_selected)) = [shape_id 1, shape_id 3] \<and>
   selectedId (deleteSelected three_shapes_one_selected) = None"
  using deleteSelected_effect [of initial_state "shape_id 2" "shapes three_shapes_one_selected ! 1"]
    deleteSelected_effect [of three_shapes_one_selected "shape_id 2" "shapes three_shapes_one_selected ! 1"]
  by (simp add: three_shapes_one_selected_def initial_state_def handler_defs bare_shape_def
      shape_id_def decimal_digit)

subsection \<open>Pointer moves on an empty list\<close>

text \<open>
  C10: with an empty shape list \<open>handleMouseMove\<close> returns the state it was given, whether
  a drawing is in progress or not.
\<close>

theorem handleMouseMove_empty_list:
  "shapes s = [] \<Longrightarrow> handleMouseMove pos s = s"
  by (simp add: handleMouseMove_def)

theorem handleMouseMove_empty_list_witness:
  "isDrawing drawing_without_shape \<and> shapes drawing_without_shape = [] \<and>
   handleMouseMove (7, 9) drawing_without_shape = drawing_without_shape"
proof -
  have e: "shapes drawing_without_shape = []"
    by (simp add: drawing_without_shape_def initial_state_def handleMouseDown_def undo_def)
  have d: "isDrawing drawing_without_shape"
    by (simp add: drawing_without_shape_def initial_state_def handleMouseDown_def undo_def)
  from e d handleMouseMove_empty_list [OF e, of "(7, 9)"] show ?thesis by simp
qed

end
